theory Spec2Isabelle
  imports Complex_Main
begin

section \<open>JavaScript values used by the library\<close>

text \<open>
  The library is JavaScript. Numbers that count messages or milliseconds are modelled as
  \<^typ>\<open>int\<close>; an option that the caller may leave out is an \<^typ>\<open>'a option\<close>, with
  \<open>None\<close> for \<open>undefined\<close>. The helpers below write out the JavaScript rules the source
  relies on: truthiness, the \<open>||\<close> default, relational operators on \<open>undefined\<close> and
  \<open>Array.prototype.slice\<close>.
\<close>

definition truthy_num :: "int option \<Rightarrow> bool" where
  "truthy_num v = (case v of None \<Rightarrow> False | Some n \<Rightarrow> n \<noteq> 0)"

definition truthy_str :: "string option \<Rightarrow> bool" where
  "truthy_str v = (case v of None \<Rightarrow> False | Some s \<Rightarrow> s \<noteq> [])"

definition or_num :: "int option \<Rightarrow> int \<Rightarrow> int" where
  "or_num v d = (case v of None \<Rightarrow> d | Some n \<Rightarrow> if n \<noteq> 0 then n else d)"

definition or_list :: "'a list option \<Rightarrow> 'a list \<Rightarrow> 'a list" where
  "or_list v d = (case v of None \<Rightarrow> d | Some xs \<Rightarrow> xs)"

text \<open>\<open>a < b\<close>, \<open>a > b\<close> and \<open>a <= b\<close>: \<open>undefined\<close> converts to \<open>NaN\<close>, and every
  comparison with \<open>NaN\<close> is false.\<close>

definition js_lt :: "int option \<Rightarrow> int option \<Rightarrow> bool" where
  "js_lt a b = (case (a, b) of (Some x, Some y) \<Rightarrow> x < y | _ \<Rightarrow> False)"

definition js_gt :: "int option \<Rightarrow> int option \<Rightarrow> bool" where
  "js_gt a b = (case (a, b) of (Some x, Some y) \<Rightarrow> x > y | _ \<Rightarrow> False)"

definition js_le :: "int option \<Rightarrow> int option \<Rightarrow> bool" where
  "js_le a b = (case (a, b) of (Some x, Some y) \<Rightarrow> x \<le> y | _ \<Rightarrow> False)"

text \<open>\<open>xs.slice(start, fin)\<close> and \<open>xs.slice(start)\<close>: a negative index counts from the
  end, and both indices are clamped to the array.\<close>

definition js_slice :: "'a list \<Rightarrow> int \<Rightarrow> int \<Rightarrow> 'a list" where
  "js_slice xs start fin =
     (let len = int (length xs);
          k = (if start < 0 then max (len + start) 0 else min start len);
          final = (if fin < 0 then max (len + fin) 0 else min fin len)
      in take (nat (final - k)) (drop (nat k) xs))"

definition js_slice_from :: "'a list \<Rightarrow> int \<Rightarrow> 'a list" where
  "js_slice_from xs start = js_slice xs start (int (length xs))"


section \<open>The in-memory buffer (class \<open>Memory\<close>)\<close>

text \<open>
  The fields of a \<open>Memory\<close> instance. \<open>timerId\<close> is \<open>None\<close> for \<open>null\<close> and
  \<open>Some d\<close> for a live timer that was set to call \<open>_flushBound\<close> after \<open>d\<close>
  milliseconds. \<open>flushed\<close> is not a field of the class: it logs the payloads of the
  \<open>'flush'\<close> events emitted so far, oldest first.

  Arrays are lists here, without addresses: \<open>_flush\<close> hands \<open>this.items\<close> to the
  listeners and then binds \<open>this.items\<close> to a fresh array, \<open>slice\<close> returns fresh
  arrays, and the array given to \<open>add\<close> is only read, so no array that the buffer
  mutates is shared.
\<close>

record 'a Memory =
  bufferSize :: int
  bufferTimeout :: int
  items :: "'a list"
  timerId :: "int option"
  flushed :: "'a list list"

record Memory_options =
  mopt_bufferSize :: "int option"
  mopt_bufferTimeout :: "int option"

definition Memory_validate :: "Memory_options option \<Rightarrow> string + unit" where
  "Memory_validate options =
     (case options of
        None \<Rightarrow> Inl ''Missing required options''
      | Some opts \<Rightarrow>
          if \<not> truthy_num (mopt_bufferSize opts)
            then Inl ''Missing required option [bufferSize].''
          else if \<not> truthy_num (mopt_bufferTimeout opts)
            then Inl ''Missing required option [bufferTimeout].''
          else Inr ())"

definition Memory_new :: "Memory_options option \<Rightarrow> string + 'a Memory" where
  "Memory_new options =
     (case Memory_validate options of
        Inl e \<Rightarrow> Inl e
      | Inr _ \<Rightarrow>
          (case options of
             None \<Rightarrow> Inl ''Missing required options''
           | Some opts \<Rightarrow>
               (case (mopt_bufferSize opts, mopt_bufferTimeout opts) of
                  (Some c, Some t) \<Rightarrow>
                    Inr \<lparr>bufferSize = c, bufferTimeout = t, items = [],
                         timerId = None, flushed = []\<rparr>
                | _ \<Rightarrow> Inl ''Missing required options'')))"

definition startTimer :: "'a Memory \<Rightarrow> 'a Memory" where
  "startTimer m =
     (if timerId m = None then m\<lparr>timerId := Some (bufferTimeout m)\<rparr> else m)"

definition stopTimer :: "'a Memory \<Rightarrow> 'a Memory" where
  "stopTimer m = (if timerId m \<noteq> None then m\<lparr>timerId := None\<rparr> else m)"

definition flush :: "'a Memory \<Rightarrow> 'a Memory" where
  "flush m =
     (let m1 = stopTimer m
      in m1\<lparr>flushed := flushed m1 @ [items m1], items := []\<rparr>)"

text \<open>The argument of \<open>add\<close>: \<open>Array.isArray(items)\<close> tells a list from a single item.\<close>

datatype 'a add_arg = Single 'a | Array "'a list"

text \<open>
  \<open>add\<close> calls itself on the overflow, and nothing in the source bounds that recursion
  (with a capacity below 1 it never ends), so the result is an option and \<open>None\<close> stands
  for a call that does not return.
\<close>

partial_function (option) add :: "'a Memory \<Rightarrow> 'a add_arg \<Rightarrow> 'a Memory option" where
  "add m arg =
     (let currentSize = int (length (items m)) in
      case arg of
        Array xs \<Rightarrow>
          (let possibleSize = currentSize + int (length xs) in
           if possibleSize > bufferSize m then
             (let available = bufferSize m - currentSize;
                  sliced = js_slice xs 0 available;
                  remaining = js_slice_from xs available
              in add (flush (m\<lparr>items := items m @ sliced\<rparr>)) (Array remaining))
           else
             (let m1 = m\<lparr>items := items m @ xs\<rparr> in
              if possibleSize = bufferSize m then Some (flush m1)
              else Some (startTimer m1)))
      | Single x \<Rightarrow>
          (let m1 = m\<lparr>items := items m @ [x]\<rparr> in
           if int (length (items m1)) = bufferSize m1 then Some (flush m1)
           else Some (startTimer m1)))"

declare add.simps [code]

text \<open>
  What can happen to a buffer: a call of \<open>add\<close>, or its timer firing, which runs
  \<open>_flush\<close>.
\<close>

datatype 'a Memory_op = Op_add "'a add_arg" | Op_flush

fun Memory_run :: "'a Memory \<Rightarrow> 'a Memory_op list \<Rightarrow> 'a Memory option" where
  "Memory_run m [] = Some m"
| "Memory_run m (Op_add a # ops) =
     (case add m a of None \<Rightarrow> None | Some m' \<Rightarrow> Memory_run m' ops)"
| "Memory_run m (Op_flush # ops) = Memory_run (flush m) ops"

fun arg_items :: "'a add_arg \<Rightarrow> 'a list" where
  "arg_items (Single x) = [x]"
| "arg_items (Array xs) = xs"


section \<open>The consumer (class \<open>Receiver\<close>)\<close>

subsection \<open>Messages, errors and the queue client\<close>

record sqs_message =
  MessageId :: string
  ReceiptHandle :: string
  Body :: string

text \<open>The error classes of \<open>errors.js\<close>; an instance carries its class and message.\<close>

datatype error_class = SQSError | SQSAuthenticationError | ConsumerDeleteError | ProcessingError

datatype app_error = App_error error_class string

text \<open>What a call can throw: the engine's \<open>TypeError\<close> and \<open>RangeError\<close>, or an error
  object that \<open>emit\<close> throws.\<close>

datatype js_exn = TypeError string | RangeError string | Thrown app_error

text \<open>An error reported by the queue client: \<open>err.code\<close> is a number or a string.\<close>

datatype err_code = Code_num int | Code_str string

record sqs_error =
  code :: err_code
  err_message :: string

record receive_params =
  QueueUrl :: string
  AttributeNames :: "string list"
  MessageAttributeNames :: "string list"
  MaxNumberOfMessages :: int
  WaitTimeSeconds :: "int option"
  VisibilityTimeout :: "int option"

record receive_response =
  Messages :: "sqs_message list option"

record delete_params =
  del_QueueUrl :: string
  del_ReceiptHandle :: string

record batch_entry =
  Id :: string
  entry_ReceiptHandle :: string

record batch_params =
  batch_QueueUrl :: string
  Entries :: "batch_entry list"

text \<open>What the client passes to the callback of \<open>deleteMessageBatch\<close>: an error, or
  data whose \<open>Failed\<close> list holds the entries that were rejected (their ids here).\<close>

datatype batch_response = Batch_error sqs_error | Batch_data "string list"

subsection \<open>Arrays that the acknowledgment handle receives\<close>

text \<open>
  \<open>deleteMessage\<close> is given a reference to the caller's array and \<open>_deleteMessageBatch\<close>
  empties the array it works on with \<open>splice\<close>, so these arrays live in a store: address
  \<open>a\<close> is allocated when \<open>a < length h\<close>, and \<open>h ! a\<close> is the array held there.
\<close>

type_synonym addr = nat
type_synonym heap = "sqs_message list list"

definition heap_get :: "heap \<Rightarrow> addr \<Rightarrow> sqs_message list option" where
  "heap_get h a = (if a < length h then Some (h ! a) else None)"

definition heap_alloc :: "heap \<Rightarrow> sqs_message list \<Rightarrow> heap \<times> addr" where
  "heap_alloc h xs = (h @ [xs], length h)"

definition heap_set :: "heap \<Rightarrow> addr \<Rightarrow> sqs_message list \<Rightarrow> heap" where
  "heap_set h a xs = h[a := xs]"

text \<open>The value handed to \<open>deleteMessage\<close>: nothing (\<open>undefined\<close> or \<open>null\<close>), an
  \<open>Error\<close> with its message, one message object, or an array of messages.\<close>

datatype js_arg = Arg_undefined | Arg_error string | Arg_message sqs_message | Arg_array addr

subsection \<open>Observable actions\<close>

text \<open>
  A method of the consumer is modelled by the list of actions it performs, in order:
  notifications (\<open>emit\<close>), requests to the queue client, timers and calls of the
  application's \<open>messageReceiver\<close>. The queue client and the listeners themselves are
  outside the model; they are taken to return normally. \<open>Emit name p\<close> records the call
  \<open>this.emit(name, p)\<close> that returned.

  A function handed to \<open>setTimeout\<close> is either the method \<open>this._poll\<close> itself or
  \<open>this._pollBound\<close>, which the constructor makes with \<open>bind(this)\<close>.
\<close>

datatype callback = Unbound_poll | Bound_poll

datatype payload =
    No_payload
  | Error_payload app_error
  | Messages_payload "sqs_message list"
  | Ack_payload js_arg

datatype effect =
    Emit string payload
  | Sqs_receiveMessage receive_params
  | Sqs_deleteMessage delete_params
  | Sqs_deleteMessageBatch batch_params
  | SetTimeout callback int
  | Call_messageReceiver "sqs_message list"

definition ERROR_EVENT :: string where "ERROR_EVENT = ''error''"
definition MESSAGE_RECEIVED_EVENT :: string where
  "MESSAGE_RECEIVED_EVENT = ''message:received''"
definition PROCESSING_ERROR_EVENT :: string where
  "PROCESSING_ERROR_EVENT = ''processing:error''"
definition MESSAGE_PROCESSED_EVENT :: string where
  "MESSAGE_PROCESSED_EVENT = ''message:processed''"
definition STOPPED_EVENT :: string where "STOPPED_EVENT = ''stopped''"

fun emits :: "string \<Rightarrow> effect \<Rightarrow> bool" where
  "emits name (Emit n p) = (n = name)"
| "emits name _ = False"

fun is_receive :: "effect \<Rightarrow> bool" where
  "is_receive (Sqs_receiveMessage p) = True"
| "is_receive _ = False"

fun is_delete :: "effect \<Rightarrow> bool" where
  "is_delete (Sqs_deleteMessage p) = True"
| "is_delete (Sqs_deleteMessageBatch p) = True"
| "is_delete _ = False"

subsection \<open>Construction\<close>

record Receiver_options =
  opt_queueUrl :: "string option"
  opt_messageReceiver :: bool
  opt_batchSize :: "int option"
  opt_waitTimeSeconds :: "int option"
  opt_visibilityTimeout :: "int option"
  opt_attributeNames :: "string list option"
  opt_messageAttributeNames :: "string list option"
  opt_authenticationErrorTimeout :: "int option"
  opt_bufferSize :: "int option"
  opt_bufferTimeout :: "int option"

text \<open>\<open>opt_messageReceiver\<close> says whether a callback was given. The options \<open>sqs\<close>,
  \<open>region\<close> and \<open>buffer\<close> (a client or a buffer of the caller's own) are not modelled:
  the consumer below uses the \<open>Memory\<close> buffer.\<close>

text \<open>
  \<open>Receiver\<close> extends Node's \<open>EventEmitter\<close>. Of the emitter's state the model keeps
  \<open>listeners\<close>, the names of the events that have a listener: none after construction,
  and \<open>on(name, f)\<close> adds one.
\<close>

record Receiver =
  queueUrl :: string
  batchSize :: int
  waitTimeSeconds :: "int option"
  visibilityTimeout :: "int option"
  attributeNames :: "string list"
  messageAttributeNames :: "string list"
  authenticationErrorTimeout :: int
  rcv_bufferSize :: "int option"
  rcv_bufferTimeout :: int
  buffer :: "sqs_message Memory option"
  stopped :: bool
  listeners :: "string list"

definition Receiver_validate :: "Receiver_options option \<Rightarrow> string + unit" where
  "Receiver_validate options =
     (case options of
        None \<Rightarrow> Inl ''Missing required options''
      | Some opts \<Rightarrow>
          if \<not> truthy_str (opt_queueUrl opts)
            then Inl ''Missing required option [queueUrl].''
          else if \<not> opt_messageReceiver opts
            then Inl ''Missing required option [messageReceiver].''
          else if js_lt (opt_batchSize opts) (Some 1) \<or> js_gt (opt_batchSize opts) (Some 10)
            then Inl ''Invalid SQS [batchSize]. Must be between 1 and 10.''
          else if js_le (opt_bufferSize opts) (opt_batchSize opts)
            then Inl ''Invalid SQS [bufferSize]. Must be greater than [batchSize].''
          else Inr ())"

definition Receiver_new :: "Receiver_options option \<Rightarrow> string + Receiver" where
  "Receiver_new options =
     (case Receiver_validate options of
        Inl e \<Rightarrow> Inl e
      | Inr _ \<Rightarrow>
          (case options of
             None \<Rightarrow> Inl ''Missing required options''
           | Some opts \<Rightarrow>
               (case opt_queueUrl opts of
                  None \<Rightarrow> Inl ''Missing required option [queueUrl].''
                | Some url \<Rightarrow>
                    (let this = \<lparr>queueUrl = url,
                           batchSize = or_num (opt_batchSize opts) 1,
                           waitTimeSeconds = opt_waitTimeSeconds opts,
                           visibilityTimeout = opt_visibilityTimeout opts,
                           attributeNames = or_list (opt_attributeNames opts) [],
                           messageAttributeNames = or_list (opt_messageAttributeNames opts) [],
                           authenticationErrorTimeout =
                             or_num (opt_authenticationErrorTimeout opts) 10000,
                           rcv_bufferSize = opt_bufferSize opts,
                           rcv_bufferTimeout = or_num (opt_bufferTimeout opts) 10000,
                           buffer = None,
                           stopped = True,
                           listeners = []\<rparr>
                     in if truthy_num (opt_bufferSize opts) then
                          (case Memory_new
                                  (Some \<lparr>mopt_bufferSize = rcv_bufferSize this,
                                         mopt_bufferTimeout = Some (rcv_bufferTimeout this)\<rparr>) of
                             Inl e \<Rightarrow> Inl e
                           | Inr b \<Rightarrow> Inr (this\<lparr>buffer := Some b\<rparr>))
                        else Inr this))))"

definition on :: "Receiver \<Rightarrow> string \<Rightarrow> Receiver" where
  "on this name = this\<lparr>listeners := listeners this @ [name]\<rparr>"

text \<open>
  \<open>EventEmitter.emit\<close>: an event named \<open>error\<close> that has no listener is not
  delivered; \<open>emit\<close> throws its argument instead. Every other call returns, with or
  without listeners. Of the events of this class only \<open>ERROR_EVENT\<close> has that name, so
  the other notifications are recorded directly.
\<close>

definition emit :: "Receiver \<Rightarrow> string \<Rightarrow> app_error \<Rightarrow> js_exn + effect list" where
  "emit this name error =
     (if name = ''error'' \<and> name \<notin> set (listeners this) then Inl (Thrown error)
      else Inr [Emit name (Error_payload error)])"

text \<open>The statements that follow a call run only when the call returns.\<close>

definition followed_by :: "js_exn + effect list \<Rightarrow> effect list \<Rightarrow> js_exn + effect list" where
  "followed_by r effs = (case r of Inl x \<Rightarrow> Inl x | Inr done \<Rightarrow> Inr (done @ effs))"

subsection \<open>Polling\<close>

definition poll :: "Receiver \<Rightarrow> effect list" where
  "poll this =
     (let params = \<lparr>QueueUrl = queueUrl this,
                     AttributeNames = attributeNames this,
                     MessageAttributeNames = messageAttributeNames this,
                     MaxNumberOfMessages = batchSize this,
                     WaitTimeSeconds = waitTimeSeconds this,
                     VisibilityTimeout = visibilityTimeout this\<rparr>
      in if \<not> stopped this then [Sqs_receiveMessage params]
         else [Emit STOPPED_EVENT No_payload])"

text \<open>
  A timer calls its function with the timer object as \<open>this\<close>. For \<open>_pollBound\<close> that
  makes no difference. The bare method \<open>_poll\<close> then reads \<open>this.stopped\<close>, which a
  timer object does not have (\<open>undefined\<close>, so the branch that polls is taken), and
  calls \<open>this.sqs.receiveMessage\<close>, where \<open>this.sqs\<close> is \<open>undefined\<close>: a
  \<open>TypeError\<close>, and no request is made.
\<close>

definition timer_fires :: "Receiver \<Rightarrow> callback \<Rightarrow> js_exn + effect list" where
  "timer_fires this cb =
     (case cb of
        Bound_poll \<Rightarrow> Inr (poll this)
      | Unbound_poll \<Rightarrow> Inl (TypeError ''Cannot read property receiveMessage of undefined''))"

definition handleErrors :: "Receiver \<Rightarrow> app_error \<Rightarrow> js_exn + effect list" where
  "handleErrors this error =
     (case error of
        App_error SQSError msg \<Rightarrow> emit this ERROR_EVENT error
      | App_error SQSAuthenticationError msg \<Rightarrow> emit this ERROR_EVENT error
      | App_error ConsumerDeleteError msg \<Rightarrow> emit this PROCESSING_ERROR_EVENT error
      | App_error ProcessingError msg \<Rightarrow> emit this PROCESSING_ERROR_EVENT error)"

definition onFlush :: "sqs_message list \<Rightarrow> effect list" where
  "onFlush messages = [Call_messageReceiver messages]"

text \<open>
  \<open>this.buffer.add(messages, this._pollBound)\<close>: \<open>Memory.add\<close> has one parameter, so
  the second argument is dropped. Each \<open>'flush'\<close> event that \<open>add\<close> emits runs
  \<open>_onFlush\<close>. A call of \<open>add\<close> that does not return overflows the stack.
\<close>

definition internalMessageProcessor ::
    "Receiver \<Rightarrow> sqs_message list \<Rightarrow> js_exn + (Receiver \<times> effect list)" where
  "internalMessageProcessor this messages =
     (let received = [Emit MESSAGE_RECEIVED_EVENT (Messages_payload messages)] in
      if truthy_num (rcv_bufferSize this) then
        (case buffer this of
           None \<Rightarrow> Inl (TypeError ''Cannot read property add of undefined'')
         | Some b \<Rightarrow>
             (case add b (Array messages) of
                None \<Rightarrow> Inl (RangeError ''Maximum call stack size exceeded'')
              | Some b' \<Rightarrow>
                  Inr (this\<lparr>buffer := Some b'\<rparr>,
                       received @ concat (map onFlush (drop (length (flushed b)) (flushed b'))))))
      else Inr (this, received @ [Call_messageReceiver messages]))"

definition internalMessageReceiver ::
    "Receiver \<Rightarrow> sqs_error option \<Rightarrow> receive_response option
       \<Rightarrow> js_exn + (Receiver \<times> effect list)" where
  "internalMessageReceiver this err response =
     (case err of
        Some e \<Rightarrow>
          if code e = Code_num 403 \<or> code e = Code_str ''CredentialsError'' then
            (case followed_by
                    (handleErrors this
                       (App_error SQSAuthenticationError ''SQS authentication Error''))
                    [SetTimeout Unbound_poll (authenticationErrorTimeout this)] of
               Inl x \<Rightarrow> Inl x
             | Inr effs \<Rightarrow> Inr (this, effs))
          else
            (case handleErrors this (App_error SQSError ''SQS Receive Error'') of
               Inl x \<Rightarrow> Inl x
             | Inr effs \<Rightarrow> Inr (this, effs))
      | None \<Rightarrow>
          (case response of
             None \<Rightarrow> Inr (this, poll this)
           | Some resp \<Rightarrow>
               (case Messages resp of
                  None \<Rightarrow> Inr (this, poll this)
                | Some msgs \<Rightarrow>
                    if length msgs > 0 then internalMessageProcessor this msgs
                    else Inr (this, poll this))))"

definition start :: "Receiver \<Rightarrow> Receiver \<times> effect list" where
  "start this =
     (if stopped this then
        (let this' = this\<lparr>stopped := False\<rparr> in (this', poll this'))
      else (this, []))"

definition stop :: "Receiver \<Rightarrow> Receiver \<times> effect list" where
  "stop this = (this\<lparr>stopped := True\<rparr>, [])"

subsection \<open>Acknowledgment\<close>

text \<open>
  A call that waits for the queue client leaves a continuation behind: the single delete
  waits for one callback, the batch delete for \<open>Promise.all\<close> over one promise per
  chunk. \<open>Await_batch k message\<close> says that \<open>k\<close> promises are still unsettled and
  none was rejected.
\<close>

datatype pending = No_pending | Await_deleteMessage js_arg | Await_batch nat js_arg

text \<open>\<open>message.ReceiptHandle || message[0].ReceiptHandle\<close>, for a message object: when
  the handle is empty, \<open>message[0]\<close> is \<open>undefined\<close> and reading its property throws.\<close>

definition deleteMessageOne :: "Receiver \<Rightarrow> sqs_message \<Rightarrow> js_exn + effect list" where
  "deleteMessageOne this m =
     (if ReceiptHandle m \<noteq> [] then
        Inr [Sqs_deleteMessage \<lparr>del_QueueUrl = queueUrl this,
                                del_ReceiptHandle = ReceiptHandle m\<rparr>]
      else Inl (TypeError ''Cannot read property ReceiptHandle of undefined''))"

fun join_comma :: "string list \<Rightarrow> string" where
  "join_comma [] = []"
| "join_comma [x] = x"
| "join_comma (x # y # ys) = x @ '','' @ join_comma (y # ys)"

text \<open>How the promise of one chunk settles: \<open>Inl\<close> is a rejection. An entry of
  \<open>data.Failed\<close> is an object, which the template string prints as
  \<open>[object Object]\<close>.\<close>

definition deleteMessageBatchPromise :: "batch_response \<Rightarrow> app_error + unit" where
  "deleteMessageBatchPromise resp =
     (case resp of
        Batch_error e \<Rightarrow>
          Inl (App_error SQSError
                 (''SQS delete message batch failed with error: '' @ err_message e))
      | Batch_data failed \<Rightarrow>
          if length failed \<noteq> 0 then
            Inl (App_error SQSError
                   (''SQS delete message batch failed with errors: ''
                    @ join_comma (map (\<lambda>_. ''[object Object]'') failed)))
          else Inr ())"

text \<open>The loop of \<open>_deleteMessageBatch\<close>: \<open>messages.splice(0, 10)\<close> removes the first ten
  elements from the array at \<open>messages\<close> and returns them; one request is made per
  chunk.\<close>

definition chunk_params :: "Receiver \<Rightarrow> sqs_message list \<Rightarrow> batch_params" where
  "chunk_params this chunk =
     \<lparr>batch_QueueUrl = queueUrl this,
      Entries = map (\<lambda>item. \<lparr>Id = MessageId item,
                              entry_ReceiptHandle = ReceiptHandle item\<rparr>) chunk\<rparr>"

function deleteMessageBatch_loop ::
    "Receiver \<Rightarrow> heap \<Rightarrow> addr \<Rightarrow> batch_params list \<Rightarrow> heap \<times> batch_params list" where
  "deleteMessageBatch_loop this h messages calls =
     (case heap_get h messages of
        None \<Rightarrow> (h, calls)
      | Some xs \<Rightarrow>
          if length xs \<noteq> 0 then
            (let chunk = take 10 xs;
                 h' = heap_set h messages (drop 10 xs);
                 params = chunk_params this chunk
             in deleteMessageBatch_loop this h' messages (calls @ [params]))
          else (h, calls))"
  by pat_completeness auto
termination
  by (relation "measure (\<lambda>(this, h, messages, calls). length (h ! messages))")
     (auto simp: heap_get_def heap_set_def split: if_splits)

definition messageProcessed :: "Receiver \<Rightarrow> js_arg \<Rightarrow> effect list" where
  "messageProcessed this message =
     [Emit MESSAGE_PROCESSED_EVENT (Ack_payload message)] @ poll this"

text \<open>
  \<open>deleteMessage\<close> up to the point where it waits for the queue client. With no chunk
  at all (an empty array) \<open>Promise.all\<close> resolves at once and the callback runs.
\<close>

definition deleteMessage ::
    "Receiver \<Rightarrow> heap \<Rightarrow> js_arg \<Rightarrow> js_exn + (heap \<times> pending \<times> effect list)" where
  "deleteMessage this h message =
     (case message of
        Arg_undefined \<Rightarrow>
          (case followed_by
                  (handleErrors this
                     (App_error ConsumerDeleteError ''No message supplied to be deleted''))
                  (poll this) of
             Inl x \<Rightarrow> Inl x
           | Inr effs \<Rightarrow> Inr (h, No_pending, effs))
      | Arg_error e \<Rightarrow>
          (case followed_by (handleErrors this (App_error ProcessingError e)) (poll this) of
             Inl x \<Rightarrow> Inl x
           | Inr effs \<Rightarrow> Inr (h, No_pending, effs))
      | Arg_message m \<Rightarrow>
          (case deleteMessageOne this m of
             Inl x \<Rightarrow> Inl x
           | Inr effs \<Rightarrow> Inr (h, Await_deleteMessage message, effs))
      | Arg_array a \<Rightarrow>
          (case heap_get h a of
             None \<Rightarrow> Inl (TypeError ''not an array'')
           | Some xs \<Rightarrow>
               if length xs = 1 then
                 (case deleteMessageOne this (xs ! 0) of
                    Inl x \<Rightarrow> Inl x
                  | Inr effs \<Rightarrow> Inr (h, Await_deleteMessage message, effs))
               else
                 (let (h1, messageCopy) = heap_alloc h xs;
                      (h2, calls) = deleteMessageBatch_loop this h1 messageCopy []
                  in if calls = [] then
                       Inr (h2, No_pending, messageProcessed this message)
                     else
                       Inr (h2, Await_batch (length calls) message,
                            map Sqs_deleteMessageBatch calls))))"

text \<open>The callback of \<open>sqs.deleteMessage\<close>, followed by the one \<open>deleteMessage\<close> gave
  to \<open>_deleteMessageOne\<close>: the continuation that is left, and what the callback did or
  threw.\<close>

definition deleteMessage_response ::
    "Receiver \<Rightarrow> pending \<Rightarrow> sqs_error option \<Rightarrow> pending \<times> (js_exn + effect list)" where
  "deleteMessage_response this p err =
     (case p of
        Await_deleteMessage msg \<Rightarrow>
          (case err of
             Some e \<Rightarrow>
               (No_pending,
                followed_by
                  (handleErrors this
                     (App_error SQSError
                        (''SQS delete message failed with error: '' @ err_message e)))
                  (poll this))
           | None \<Rightarrow> (No_pending, Inr (messageProcessed this msg)))
      | _ \<Rightarrow> (p, Inr []))"

text \<open>
  The callback of one \<open>sqs.deleteMessageBatch\<close> request. \<open>Promise.all\<close> rejects with
  the first rejection and resolves when the last promise resolves; once it has settled,
  later responses change nothing. On rejection the callback of \<open>deleteMessage\<close> reports
  the error and then polls, on resolution it calls \<open>_messageProcessed\<close>. When
  \<open>_handleErrors\<close> throws inside the \<open>catch\<close> handler, the handler ends there: the
  promise it returns is rejected and nobody handles it.
\<close>

definition deleteMessageBatch_response ::
    "Receiver \<Rightarrow> pending \<Rightarrow> batch_response \<Rightarrow> pending \<times> (js_exn + effect list)" where
  "deleteMessageBatch_response this p resp =
     (case p of
        Await_batch k msg \<Rightarrow>
          (case deleteMessageBatchPromise resp of
             Inl err \<Rightarrow> (No_pending, followed_by (handleErrors this err) (poll this))
           | Inr _ \<Rightarrow>
               if k \<le> 1 then (No_pending, Inr (messageProcessed this msg))
               else (Await_batch (k - 1) msg, Inr []))
      | _ \<Rightarrow> (p, Inr []))"

text \<open>The responses of the queue client, in the order in which its callbacks run. After
  a callback that threw, the continuation is gone and the later ones do nothing.\<close>

fun deleteMessageBatch_responses ::
    "Receiver \<Rightarrow> pending \<Rightarrow> batch_response list \<Rightarrow> pending \<times> (js_exn + effect list)" where
  "deleteMessageBatch_responses this p [] = (p, Inr [])"
| "deleteMessageBatch_responses this p (resp # rest) =
     (case deleteMessageBatch_response this p resp of
        (p1, Inl x) \<Rightarrow> (p1, Inl x)
      | (p1, Inr effs1) \<Rightarrow>
          (case deleteMessageBatch_responses this p1 rest of
             (p2, Inl x) \<Rightarrow> (p2, Inl x)
           | (p2, Inr effs2) \<Rightarrow> (p2, Inr (effs1 @ effs2))))"

definition batch_ok :: "batch_response \<Rightarrow> bool" where
  "batch_ok resp = (case resp of Batch_error e \<Rightarrow> False | Batch_data failed \<Rightarrow> failed = [])"


section \<open>Predicates used in the proofs\<close>

text \<open>
  Between two operations a buffer of capacity at least 1 is never full, and it has a
  live timer whenever it holds an item. \<open>Memory_extends m xs m'\<close> says that \<open>m'\<close>
  comes from \<open>m\<close> by taking in the items \<open>xs\<close>: the new flushes, followed by what
  \<open>m'\<close> still holds, are what \<open>m\<close> held followed by \<open>xs\<close>.
\<close>

definition Memory_inv :: "'a Memory \<Rightarrow> bool" where
  "Memory_inv m \<longleftrightarrow>
     1 \<le> bufferSize m \<and> int (length (items m)) < bufferSize m \<and>
     (items m \<noteq> [] \<longrightarrow> timerId m \<noteq> None)"

definition Memory_timer_exact :: "'a Memory \<Rightarrow> bool" where
  "Memory_timer_exact m \<longleftrightarrow> (timerId m \<noteq> None \<longleftrightarrow> items m \<noteq> [])"

definition Memory_extends :: "'a Memory \<Rightarrow> 'a list \<Rightarrow> 'a Memory \<Rightarrow> bool" where
  "Memory_extends m xs m' \<longleftrightarrow>
     bufferSize m' = bufferSize m \<and> bufferTimeout m' = bufferTimeout m \<and>
     (\<exists>new. flushed m' = flushed m @ new \<and>
        (\<forall>f \<in> set new. int (length f) \<le> bufferSize m) \<and>
        concat new @ items m' = items m @ xs)"

fun op_items :: "'a Memory_op \<Rightarrow> 'a list" where
  "op_items (Op_add a) = arg_items a"
| "op_items Op_flush = []"


section \<open>The buffer: flush size, order and the timer\<close>


lemma js_slice_prefix:
  "0 \<le> a \<Longrightarrow> a \<le> int (length xs) \<Longrightarrow> js_slice xs 0 a = take (nat a) xs"
  by (simp add: js_slice_def Let_def)

lemma js_slice_from_suffix:
  "0 \<le> a \<Longrightarrow> a \<le> int (length xs) \<Longrightarrow> js_slice_from xs a = drop (nat a) xs"
  by (simp add: js_slice_from_def js_slice_def Let_def)

lemma flush_fields:
  "bufferSize (flush m) = bufferSize m" "bufferTimeout (flush m) = bufferTimeout m"
  "items (flush m) = []" "timerId (flush m) = None"
  "flushed (flush m) = flushed m @ [items m]"
  by (simp_all add: flush_def stopTimer_def Let_def)

lemma startTimer_fields:
  "bufferSize (startTimer m) = bufferSize m" "bufferTimeout (startTimer m) = bufferTimeout m"
  "items (startTimer m) = items m" "timerId (startTimer m) \<noteq> None"
  "flushed (startTimer m) = flushed m"
  by (simp_all add: startTimer_def)

lemma Memory_extends_trans:
  assumes "Memory_extends m xs m1" "Memory_extends m1 ys m2"
  shows "Memory_extends m (xs @ ys) m2"
proof -
  from assms(1) obtain n1 where n1: "flushed m1 = flushed m @ n1"
    "\<forall>f \<in> set n1. int (length f) \<le> bufferSize m" "concat n1 @ items m1 = items m @ xs"
    and s1: "bufferSize m1 = bufferSize m" "bufferTimeout m1 = bufferTimeout m"
    by (auto simp: Memory_extends_def)
  from assms(2) obtain n2 where n2: "flushed m2 = flushed m1 @ n2"
    "\<forall>f \<in> set n2. int (length f) \<le> bufferSize m1" "concat n2 @ items m2 = items m1 @ ys"
    and s2: "bufferSize m2 = bufferSize m1" "bufferTimeout m2 = bufferTimeout m1"
    by (auto simp: Memory_extends_def)
  have "concat (n1 @ n2) @ items m2 = concat n1 @ items m1 @ ys"
    using n2(3) by simp
  also have "\<dots> = items m @ xs @ ys" using n1(3) by (metis append_assoc)
  finally have c: "concat (n1 @ n2) @ items m2 = items m @ xs @ ys" .
  show ?thesis
    unfolding Memory_extends_def
  proof (intro conjI exI [of _ "n1 @ n2"])
    show "bufferSize m2 = bufferSize m" using s1 s2 by simp
    show "bufferTimeout m2 = bufferTimeout m" using s1 s2 by simp
    show "flushed m2 = flushed m @ n1 @ n2" using n1(1) n2(1) by simp
    show "\<forall>f \<in> set (n1 @ n2). int (length f) \<le> bufferSize m"
      using n1(2) n2(2) s1 by auto
    show "concat (n1 @ n2) @ items m2 = items m @ xs @ ys" by (rule c)
  qed
qed

lemma add_Array_ok:
  "Memory_inv m \<Longrightarrow>
   \<exists>m'. add m (Array xs) = Some m' \<and> Memory_inv m' \<and> Memory_extends m xs m' \<and>
        (Memory_timer_exact m \<and> xs \<noteq> [] \<longrightarrow> Memory_timer_exact m')"
proof (induction "length xs" arbitrary: m xs rule: less_induct)
  case less
  let ?c = "bufferSize m"
  let ?cur = "int (length (items m))"
  from less.prems have c1: "1 \<le> ?c" and lt: "?cur < ?c"
    by (simp_all add: Memory_inv_def)
  consider (over) "?cur + int (length xs) > ?c"
    | (full) "?cur + int (length xs) = ?c"
    | (part) "?cur + int (length xs) < ?c" by linarith
  then show ?case
  proof cases
    case over
    define a where "a = ?c - ?cur"
    have a: "1 \<le> a" "a < int (length xs)" using lt over by (simp_all add: a_def)
    define m1 where "m1 = flush (m\<lparr>items := items m @ take (nat a) xs\<rparr>)"
    define rest where "rest = drop (nat a) xs"
    have step: "add m (Array xs) = add m1 (Array rest)"
      using over a
      by (subst add.simps)
         (simp add: Let_def js_slice_prefix js_slice_from_suffix a_def m1_def rest_def)
    have inv1: "Memory_inv m1"
      using c1 by (simp add: Memory_inv_def m1_def flush_fields)
    have ex1: "Memory_timer_exact m1"
      by (simp add: Memory_timer_exact_def m1_def flush_fields)
    have shorter: "length rest < length xs" using a by (simp add: rest_def)
    have rest_ne: "rest \<noteq> []" using a by (simp add: rest_def)
    from less.hyps [OF shorter inv1] obtain m' where
      r: "add m1 (Array rest) = Some m'" "Memory_inv m'" "Memory_extends m1 rest m'"
         "Memory_timer_exact m1 \<and> rest \<noteq> [] \<longrightarrow> Memory_timer_exact m'"
      by blast
    have len_chunk: "int (length (items m @ take (nat a) xs)) = ?c"
      using a by (simp add: a_def min_def)
    have "Memory_extends m (take (nat a) xs) m1"
      unfolding Memory_extends_def
      by (intro conjI exI [of _ "[items m @ take (nat a) xs]"])
         (use len_chunk in \<open>simp_all add: m1_def flush_fields\<close>)
    from Memory_extends_trans [OF this r(3)] have "Memory_extends m xs m'"
      by (simp add: rest_def)
    with step r ex1 rest_ne show ?thesis by simp
  next
    case full
    define m' where "m' = flush (m\<lparr>items := items m @ xs\<rparr>)"
    have step: "add m (Array xs) = Some m'"
      using full by (subst add.simps) (simp add: Let_def m'_def)
    have "Memory_inv m'" using c1 by (simp add: Memory_inv_def m'_def flush_fields)
    moreover have "Memory_timer_exact m'"
      by (simp add: Memory_timer_exact_def m'_def flush_fields)
    moreover have "Memory_extends m xs m'"
      unfolding Memory_extends_def
      by (intro conjI exI [of _ "[items m @ xs]"])
         (use full in \<open>simp_all add: m'_def flush_fields\<close>)
    ultimately show ?thesis using step by simp
  next
    case part
    define m' where "m' = startTimer (m\<lparr>items := items m @ xs\<rparr>)"
    have step: "add m (Array xs) = Some m'"
      using part by (subst add.simps) (simp add: Let_def m'_def)
    have "Memory_inv m'"
      using c1 part by (simp add: Memory_inv_def m'_def startTimer_fields)
    moreover have "xs \<noteq> [] \<longrightarrow> Memory_timer_exact m'"
      by (simp add: Memory_timer_exact_def m'_def startTimer_fields)
    moreover have "Memory_extends m xs m'"
      unfolding Memory_extends_def
      by (intro conjI exI [of _ "[]"]) (simp_all add: m'_def startTimer_fields)
    ultimately show ?thesis using step by simp
  qed
qed

lemma add_Single_ok:
  assumes "Memory_inv m"
  shows "\<exists>m'. add m (Single x) = Some m' \<and> Memory_inv m' \<and> Memory_extends m [x] m' \<and>
        Memory_timer_exact m'"
proof -
  from assms have c1: "1 \<le> bufferSize m" and lt: "int (length (items m)) < bufferSize m"
    by (simp_all add: Memory_inv_def)
  show ?thesis
  proof (cases "int (length (items m)) + 1 = bufferSize m")
    case True
    define m' where "m' = flush (m\<lparr>items := items m @ [x]\<rparr>)"
    have step: "add m (Single x) = Some m'"
      using True by (subst add.simps) (simp add: Let_def m'_def)
    have "Memory_inv m'" using c1 by (simp add: Memory_inv_def m'_def flush_fields)
    moreover have "Memory_timer_exact m'"
      by (simp add: Memory_timer_exact_def m'_def flush_fields)
    moreover have "Memory_extends m [x] m'"
      unfolding Memory_extends_def
      by (intro conjI exI [of _ "[items m @ [x]]"])
         (use True in \<open>simp_all add: m'_def flush_fields\<close>)
    ultimately show ?thesis using step by simp
  next
    case False
    define m' where "m' = startTimer (m\<lparr>items := items m @ [x]\<rparr>)"
    have step: "add m (Single x) = Some m'"
      using False by (subst add.simps) (simp add: Let_def m'_def)
    have "Memory_inv m'"
      using c1 lt False by (simp add: Memory_inv_def m'_def startTimer_fields)
    moreover have "Memory_timer_exact m'"
      by (simp add: Memory_timer_exact_def m'_def startTimer_fields)
    moreover have "Memory_extends m [x] m'"
      unfolding Memory_extends_def
      by (intro conjI exI [of _ "[]"]) (simp_all add: m'_def startTimer_fields)
    ultimately show ?thesis using step by simp
  qed
qed

lemma add_ok:
  assumes "Memory_inv m"
  shows "\<exists>m'. add m a = Some m' \<and> Memory_inv m' \<and> Memory_extends m (arg_items a) m' \<and>
        (Memory_timer_exact m \<and> a \<noteq> Array [] \<longrightarrow> Memory_timer_exact m')"
proof (cases a)
  case (Single x)
  with add_Single_ok [OF assms, of x] show ?thesis by auto
next
  case (Array xs)
  with add_Array_ok [OF assms, of xs] show ?thesis by auto
qed

lemma flush_ok:
  assumes "Memory_inv m"
  shows "Memory_inv (flush m) \<and> Memory_extends m [] (flush m) \<and> Memory_timer_exact (flush m)"
proof -
  from assms have c1: "1 \<le> bufferSize m" and lt: "int (length (items m)) < bufferSize m"
    by (simp_all add: Memory_inv_def)
  have "Memory_extends m [] (flush m)"
    unfolding Memory_extends_def
    by (intro conjI exI [of _ "[items m]"]) (use lt in \<open>simp_all add: flush_fields\<close>)
  then show ?thesis
    using c1 by (simp add: Memory_inv_def Memory_timer_exact_def flush_fields)
qed

lemma Memory_extends_refl: "Memory_extends m [] m"
  unfolding Memory_extends_def by (intro conjI exI [of _ "[]"]) simp_all

lemma Memory_run_ok:
  "Memory_inv m \<Longrightarrow>
   \<exists>m'. Memory_run m ops = Some m' \<and> Memory_inv m' \<and>
        Memory_extends m (concat (map op_items ops)) m' \<and>
        (Memory_timer_exact m \<and> Op_add (Array []) \<notin> set ops \<longrightarrow> Memory_timer_exact m')"
proof (induction ops arbitrary: m)
  case Nil
  then show ?case by (simp add: Memory_extends_refl)
next
  case (Cons p ops)
  show ?case
  proof (cases p)
    case (Op_add a)
    from add_ok [OF Cons.prems, of a] obtain m1 where
      m1: "add m a = Some m1" "Memory_inv m1" "Memory_extends m (arg_items a) m1"
        "Memory_timer_exact m \<and> a \<noteq> Array [] \<longrightarrow> Memory_timer_exact m1"
      by blast
    from Cons.IH [OF m1(2)] obtain m' where
      m': "Memory_run m1 ops = Some m'" "Memory_inv m'"
        "Memory_extends m1 (concat (map op_items ops)) m'"
        "Memory_timer_exact m1 \<and> Op_add (Array []) \<notin> set ops \<longrightarrow> Memory_timer_exact m'"
      by blast
    have "Memory_run m (p # ops) = Some m'" using Op_add m1(1) m'(1) by simp
    moreover have "Memory_extends m (concat (map op_items (p # ops))) m'"
      using Memory_extends_trans [OF m1(3) m'(3)] Op_add by simp
    moreover have "Memory_timer_exact m \<and> Op_add (Array []) \<notin> set (p # ops)
        \<longrightarrow> Memory_timer_exact m'"
      using m1(4) m'(4) Op_add by auto
    ultimately show ?thesis using m'(2) by blast
  next
    case Op_flush
    from flush_ok [OF Cons.prems] have
      f: "Memory_inv (flush m)" "Memory_extends m [] (flush m)" "Memory_timer_exact (flush m)"
      by simp_all
    from Cons.IH [OF f(1)] obtain m' where
      m': "Memory_run (flush m) ops = Some m'" "Memory_inv m'"
        "Memory_extends (flush m) (concat (map op_items ops)) m'"
        "Memory_timer_exact (flush m) \<and> Op_add (Array []) \<notin> set ops \<longrightarrow> Memory_timer_exact m'"
      by blast
    have "Memory_run m (p # ops) = Some m'" using Op_flush m'(1) by simp
    moreover have "Memory_extends m (concat (map op_items (p # ops))) m'"
      using Memory_extends_trans [OF f(2) m'(3)] Op_flush by simp
    moreover have "Memory_timer_exact m \<and> Op_add (Array []) \<notin> set (p # ops)
        \<longrightarrow> Memory_timer_exact m'"
      using f(3) m'(4) by auto
    ultimately show ?thesis using m'(2) by blast
  qed
qed

lemma Memory_new_fresh:
  assumes "Memory_new options = Inr m"
  shows "items m = []" "timerId m = None" "flushed m = []"
  using assms
  by (auto simp: Memory_new_def split: sum.splits option.splits prod.splits)

lemma Memory_new_inv:
  assumes "Memory_new options = Inr m" "1 \<le> bufferSize m"
  shows "Memory_inv m" "Memory_timer_exact m"
  using assms Memory_new_fresh [OF assms(1)]
  by (simp_all add: Memory_inv_def Memory_timer_exact_def)

text \<open>
  Claim C3. Take a buffer as the constructor makes it, with capacity at least 1, and any
  finite sequence of \<open>add\<close> calls, each with a single item or a list of items. Every call
  returns; every flush emitted holds at most \<open>capacity\<close> items; and the items of all
  flushes in the order of emission, followed by the items still in the buffer, are the
  items added, in the order in which they were added. (Lists may be empty: the claim's
  non-empty ones are a special case.)
\<close>

theorem Memory_flushes_bounded_in_order:
  assumes "Memory_new options = Inr m0" and "1 \<le> bufferSize m0"
  shows "\<exists>m. Memory_run m0 (map Op_add args) = Some m \<and>
           (\<forall>f \<in> set (flushed m). int (length f) \<le> bufferSize m0) \<and>
           concat (flushed m) @ items m = concat (map arg_items args)"
proof -
  from Memory_run_ok [OF Memory_new_inv(1) [OF assms], of "map Op_add args"]
  obtain m where m: "Memory_run m0 (map Op_add args) = Some m"
    "Memory_extends m0 (concat (map op_items (map Op_add args))) m"
    by blast
  have eq: "op_items \<circ> Op_add = (arg_items :: 'a add_arg \<Rightarrow> 'a list)"
    by (simp add: fun_eq_iff)
  from m(2) show ?thesis
    using m(1) Memory_new_fresh [OF assms(1)]
    by (auto simp: Memory_extends_def eq)
qed

theorem Memory_flushes_bounded_in_order_witness:
  "Memory_new (Some \<lparr>mopt_bufferSize = Some 3, mopt_bufferTimeout = Some 1000\<rparr>)
     = Inr \<lparr>bufferSize = 3, bufferTimeout = 1000, items = [], timerId = None,
            flushed = ([] :: nat list list)\<rparr>
   \<and> (1 :: int) \<le> 3
   \<and> (\<exists>m. Memory_run \<lparr>bufferSize = 3, bufferTimeout = 1000, items = [], timerId = None,
                  flushed = []\<rparr>
             (map Op_add [Array [1, 2], Single 3, Array [4, 5, 6, 7], Single 8]) = Some m
          \<and> (\<forall>f \<in> set (flushed m). int (length f) \<le> 3)
          \<and> concat (flushed m) @ items m = [1, 2, 3, 4, 5, 6, 7, 8 :: nat])"
proof -
  have new: "Memory_new (Some \<lparr>mopt_bufferSize = Some 3, mopt_bufferTimeout = Some 1000\<rparr>)
     = Inr \<lparr>bufferSize = 3, bufferTimeout = 1000, items = [], timerId = None,
            flushed = ([] :: nat list list)\<rparr>"
    by (simp add: Memory_new_def Memory_validate_def truthy_num_def)
  from Memory_flushes_bounded_in_order [OF new,
      of "[Array [1, 2], Single 3, Array [4, 5, 6, 7], Single 8]"]
  show ?thesis using new by simp
qed

text \<open>
  Claim C6, amended. Take a buffer as the constructor makes it, with capacity at least 1,
  and any finite sequence of \<open>add\<close> calls and flushes. Every operation returns, and in
  the state reached \<open>0 \<le> len(items) \<le> capacity\<close>, and a timer is live whenever
  \<open>0 < len(items) < capacity\<close>. When no call added an empty list, a timer is live if and
  only if \<open>0 < len(items) < capacity\<close>.
\<close>

theorem Memory_invariant_without_empty_add:
  assumes "Memory_new options = Inr m0" and "1 \<le> bufferSize m0"
  shows "\<exists>m. Memory_run m0 ops = Some m \<and>
           0 \<le> length (items m) \<and> int (length (items m)) \<le> bufferSize m \<and>
           (0 < length (items m) \<and> int (length (items m)) < bufferSize m
              \<longrightarrow> timerId m \<noteq> None) \<and>
           (Op_add (Array []) \<notin> set ops \<longrightarrow>
              (timerId m \<noteq> None \<longleftrightarrow>
                 0 < length (items m) \<and> int (length (items m)) < bufferSize m))"
proof -
  from Memory_run_ok [OF Memory_new_inv(1) [OF assms], of ops]
  obtain m where m: "Memory_run m0 ops = Some m" "Memory_inv m"
    "Memory_timer_exact m0 \<and> Op_add (Array []) \<notin> set ops \<longrightarrow> Memory_timer_exact m"
    by blast
  from m(2,3) Memory_new_inv(2) [OF assms] have
    "int (length (items m)) < bufferSize m"
    "items m \<noteq> [] \<longrightarrow> timerId m \<noteq> None"
    "Op_add (Array []) \<notin> set ops \<longrightarrow> (timerId m \<noteq> None \<longleftrightarrow> items m \<noteq> [])"
    by (simp_all add: Memory_inv_def Memory_timer_exact_def)
  with m(1) show ?thesis by auto
qed

theorem Memory_invariant_without_empty_add_witness:
  "Memory_new (Some \<lparr>mopt_bufferSize = Some 3, mopt_bufferTimeout = Some 1000\<rparr>)
     = Inr \<lparr>bufferSize = 3, bufferTimeout = 1000, items = [], timerId = None,
            flushed = ([] :: nat list list)\<rparr>
   \<and> (1 :: int) \<le> 3
   \<and> Op_add (Array []) \<notin> set [Op_add (Array [1, 2 :: nat]), Op_flush, Op_add (Single 3)]
   \<and> (\<exists>m. Memory_run \<lparr>bufferSize = 3, bufferTimeout = 1000, items = [], timerId = None,
                  flushed = []\<rparr>
             [Op_add (Array [1, 2 :: nat]), Op_flush, Op_add (Single 3)] = Some m
          \<and> int (length (items m)) \<le> bufferSize m
          \<and> (timerId m \<noteq> None \<longleftrightarrow>
               0 < length (items m) \<and> int (length (items m)) < bufferSize m))"
proof -
  have new: "Memory_new (Some \<lparr>mopt_bufferSize = Some 3, mopt_bufferTimeout = Some 1000\<rparr>)
     = Inr \<lparr>bufferSize = 3, bufferTimeout = 1000, items = [], timerId = None,
            flushed = ([] :: nat list list)\<rparr>"
    by (simp add: Memory_new_def Memory_validate_def truthy_num_def)
  from Memory_invariant_without_empty_add [OF new,
      of "[Op_add (Array [1, 2]), Op_flush, Op_add (Single 3)]"]
  show ?thesis using new by auto
qed

text \<open>
  Claim C6 as stated fails: on a new buffer of capacity 2, \<open>add([])\<close> takes the branch
  for an incomplete buffer and starts the timer, so a timer is live while the buffer is
  empty.
\<close>

theorem Memory_timer_after_empty_add_counterexample:
  "Memory_new (Some \<lparr>mopt_bufferSize = Some 2, mopt_bufferTimeout = Some 1000\<rparr>)
     = Inr \<lparr>bufferSize = 2, bufferTimeout = 1000, items = [], timerId = None,
            flushed = ([] :: nat list list)\<rparr>
   \<and> Memory_run \<lparr>bufferSize = 2, bufferTimeout = 1000, items = [], timerId = None,
                  flushed = ([] :: nat list list)\<rparr> [Op_add (Array [])]
     = Some \<lparr>bufferSize = 2, bufferTimeout = 1000, items = [], timerId = Some 1000,
              flushed = []\<rparr>
   \<and> \<not> (timerId \<lparr>bufferSize = 2, bufferTimeout = 1000, items = ([] :: nat list),
                   timerId = Some 1000, flushed = []\<rparr> \<noteq> None \<longleftrightarrow>
          0 < length (items \<lparr>bufferSize = 2, bufferTimeout = 1000, items = ([] :: nat list),
                   timerId = Some 1000, flushed = []\<rparr>)
          \<and> int (length (items \<lparr>bufferSize = 2, bufferTimeout = 1000,
                   items = ([] :: nat list), timerId = Some 1000, flushed = []\<rparr>))
              < bufferSize \<lparr>bufferSize = 2, bufferTimeout = 1000, items = ([] :: nat list),
                   timerId = Some 1000, flushed = []\<rparr>)"
  by (simp add: Memory_new_def Memory_validate_def truthy_num_def add.simps Let_def
      startTimer_def)


section \<open>The consumer: acknowledgment and polling\<close>


lemma chunk_count_step:
  assumes "0 < (n::nat)"
  shows "(n + 9) div 10 = Suc ((n - 10 + 9) div 10)"
proof (cases "n < 10")
  case True
  with assms show ?thesis by simp
next
  case False
  then have "n + 9 = (n - 10 + 9) + 10" by simp
  then have "(n + 9) div 10 = ((n - 10 + 9) + 10) div 10" by simp
  also have "\<dots> = Suc ((n - 10 + 9) div 10)" by (simp only: div_add_self2)
  finally show ?thesis .
qed

lemma upt_chunks_step:
  assumes "0 < (n::nat)"
  shows "[0..<(n + 9) div 10] = 0 # map Suc [0..<(n - 10 + 9) div 10]"
  by (simp only: chunk_count_step [OF assms] upt_conv_Cons [of 0] zero_less_Suc if_True
        map_Suc_upt)


lemma deleteMessageBatch_loop_chunks:
  "a < length h \<Longrightarrow>
   deleteMessageBatch_loop this h a calls =
     (h[a := []],
      calls @ map (\<lambda>i. chunk_params this (take 10 (drop (10 * i) (h ! a))))
                  [0..<(length (h ! a) + 9) div 10])"
proof (induction this h a calls rule: deleteMessageBatch_loop.induct)
  case (1 this h a calls)
  let ?xs = "h ! a"
  have get: "heap_get h a = Some ?xs" using "1.prems" by (simp add: heap_get_def)
  show ?case
  proof (cases "?xs = []")
    case True
    then have "h[a := []] = h" by (metis list_update_id)
    with True get show ?thesis
      by (subst deleteMessageBatch_loop.simps) simp
  next
    case False
    let ?h' = "heap_set h a (drop 10 ?xs)"
    let ?c = "chunk_params this (take 10 ?xs)"
    have a': "a < length ?h'" using "1.prems" by (simp add: heap_set_def)
    have at: "?h' ! a = drop 10 ?xs" using "1.prems" by (simp add: heap_set_def)
    have ne: "length ?xs \<noteq> 0" using False by simp
    have ih: "deleteMessageBatch_loop this ?h' a (calls @ [?c]) =
       (?h'[a := []],
        (calls @ [?c])
        @ map (\<lambda>i. chunk_params this (take 10 (drop (10 * i) (?h' ! a))))
              [0..<(length (?h' ! a) + 9) div 10])"
      by (rule "1.IH" [OF get ne refl refl refl a'])
    have step: "deleteMessageBatch_loop this h a calls =
        deleteMessageBatch_loop this ?h' a (calls @ [?c])"
      using get False by (subst deleteMessageBatch_loop.simps) (simp add: Let_def)
    have idx: "[0..<(length ?xs + 9) div 10]
        = 0 # map Suc [0..<(length ?xs - 10 + 9) div 10]"
      using False by (intro upt_chunks_step) simp
    have upd: "?h'[a := []] = h[a := []]" by (simp add: heap_set_def)
    show ?thesis
      unfolding step ih at idx upd
      by (simp add: comp_def add.commute)
  qed
qed


lemma deleteMessage_batch_path:
  assumes "heap_get h a = Some xs" and "length xs \<noteq> 1"
  shows "deleteMessage this h (Arg_array a) =
     Inr (h @ [[]],
          (if xs = [] then No_pending
           else Await_batch ((length xs + 9) div 10) (Arg_array a)),
          (if xs = [] then messageProcessed this (Arg_array a)
           else map (\<lambda>i. Sqs_deleteMessageBatch
                            (chunk_params this (take 10 (drop (10 * i) xs))))
                    [0..<(length xs + 9) div 10]))"
proof -
  have loop: "deleteMessageBatch_loop this (h @ [xs]) (length h) [] =
      (h @ [[]],
       map (\<lambda>i. chunk_params this (take 10 (drop (10 * i) xs)))
           [0..<(length xs + 9) div 10])"
    using deleteMessageBatch_loop_chunks [of "length h" "h @ [xs]" this "[]"] by simp
  have empty: "(length xs + 9) div 10 = 0 \<longleftrightarrow> xs = []"
    by (cases xs) simp_all
  show ?thesis
    using assms
    by (simp add: deleteMessage_def heap_alloc_def loop empty comp_def
          del: deleteMessageBatch_loop.simps)
qed



lemma promise_ok: "batch_ok resp \<Longrightarrow> deleteMessageBatchPromise resp = Inr ()"
  by (cases resp) (simp_all add: batch_ok_def deleteMessageBatchPromise_def)


lemma responses_all_ok:
  "list_all batch_ok resps \<Longrightarrow> length resps = k \<Longrightarrow> 0 < k \<Longrightarrow>
   deleteMessageBatch_responses this (Await_batch k msg) resps
     = (No_pending, Inr (messageProcessed this msg))"
proof (induction resps arbitrary: k)
  case Nil
  then show ?case by simp
next
  case (Cons resp rest)
  from Cons.prems have ok: "deleteMessageBatchPromise resp = Inr ()"
    by (simp add: promise_ok)
  show ?case
  proof (cases "k \<le> 1")
    case True
    with Cons.prems have "rest = []" by auto
    with True ok show ?thesis
      by (simp add: deleteMessageBatch_response_def)
  next
    case False
    with Cons.prems have "list_all batch_ok rest" "length rest = k - 1" "0 < k - 1"
      by auto
    from Cons.IH [OF this] False ok show ?thesis
      by (simp add: deleteMessageBatch_response_def)
  qed
qed



lemma handleErrors_SQSError:
  "handleErrors this (App_error SQSError msg) =
     (if ERROR_EVENT \<in> set (listeners this)
      then Inr [Emit ERROR_EVENT (Error_payload (App_error SQSError msg))]
      else Inl (Thrown (App_error SQSError msg)))"
  by (simp add: handleErrors_def emit_def ERROR_EVENT_def)

lemma handleErrors_ProcessingError:
  "handleErrors this (App_error ProcessingError msg) =
     Inr [Emit PROCESSING_ERROR_EVENT (Error_payload (App_error ProcessingError msg))]"
  by (simp add: handleErrors_def emit_def PROCESSING_ERROR_EVENT_def)

lemma poll_explicit:
  "poll this =
     [if stopped this then Emit STOPPED_EVENT No_payload
      else Sqs_receiveMessage
             \<lparr>QueueUrl = queueUrl this, AttributeNames = attributeNames this,
              MessageAttributeNames = messageAttributeNames this,
              MaxNumberOfMessages = batchSize this,
              WaitTimeSeconds = waitTimeSeconds this,
              VisibilityTimeout = visibilityTimeout this\<rparr>]"
  by (simp add: poll_def)

lemma poll_of_stopped_consumer:
  "stopped this \<Longrightarrow> poll this = [Emit STOPPED_EVENT No_payload]"
  by (simp add: poll_def)





text \<open>
  Claim C10. \<open>deleteMessage\<close> is given an array of two or more messages at address
  \<open>a\<close>. The only change to the store is a new array at a fresh address (the copy, which
  the chunking empties): every array that existed before, the caller's among them, holds
  the same messages in the same order afterwards. When all chunks succeed, the
  \<open>message:processed\<close> notification carries the caller's array.
\<close>

theorem ack_leaves_the_callers_array:
  assumes "heap_get h a = Some msgs" and "1 < length msgs"
  shows "\<exists>p effs.
      deleteMessage this h (Arg_array a) = Inr (h @ [[]], p, effs)
    \<and> heap_get (h @ [[]]) a = Some msgs
    \<and> take (length h) (h @ [[]]) = h
    \<and> (list_all batch_ok resps \<and> length resps = (length msgs + 9) div 10 \<longrightarrow>
         deleteMessageBatch_responses this' p resps
           = (No_pending,
              Inr (Emit MESSAGE_PROCESSED_EVENT (Ack_payload (Arg_array a)) # poll this')))"
proof -
  have ne: "msgs \<noteq> []" "length msgs \<noteq> 1" using assms(2) by auto
  have a: "a < length h" "h ! a = msgs"
    using assms(1) by (simp_all add: heap_get_def split: if_splits)
  have call: "deleteMessage this h (Arg_array a) =
        Inr (h @ [[]], Await_batch ((length msgs + 9) div 10) (Arg_array a),
             map (\<lambda>i. Sqs_deleteMessageBatch
                         (chunk_params this (take 10 (drop (10 * i) msgs))))
                 [0..<(length msgs + 9) div 10])"
    using deleteMessage_batch_path [OF assms(1) ne(2), of this] ne(1) by simp
  have same: "heap_get (h @ [[]]) a = Some msgs"
    using a by (simp add: heap_get_def nth_append)
  have pos: "0 < (length msgs + 9) div 10" using assms(2) by simp
  have "list_all batch_ok resps \<and> length resps = (length msgs + 9) div 10 \<longrightarrow>
         deleteMessageBatch_responses this'
             (Await_batch ((length msgs + 9) div 10) (Arg_array a)) resps
           = (No_pending,
              Inr (Emit MESSAGE_PROCESSED_EVENT (Ack_payload (Arg_array a)) # poll this'))"
    using responses_all_ok [of resps "(length msgs + 9) div 10" this' "Arg_array a"] pos
    by (simp add: messageProcessed_def)
  with call same show ?thesis by simp
qed

theorem ack_leaves_the_callers_array_witness:
  "(let this = \<lparr>queueUrl = ''q'', batchSize = 1, waitTimeSeconds = None,
              visibilityTimeout = None, attributeNames = [], messageAttributeNames = [],
              authenticationErrorTimeout = 10000, rcv_bufferSize = None,
              rcv_bufferTimeout = 10000, buffer = None, stopped = False,
              listeners = [''error'']\<rparr>;
        m1 = \<lparr>MessageId = ''m1'', ReceiptHandle = ''r1'', Body = ''b1''\<rparr>;
        m2 = \<lparr>MessageId = ''m2'', ReceiptHandle = ''r2'', Body = ''b2''\<rparr>;
        h = [ [m1, m2] ]
    in heap_get h 0 = Some [m1, m2]
     \<and> 1 < length [m1, m2]
     \<and> list_all batch_ok [Batch_data []]
     \<and> length [Batch_data []] = (length [m1, m2] + 9) div 10
     \<and> (\<exists>p. deleteMessage this h (Arg_array 0)
            = Inr ([ [m1, m2], [] ], p,
                   [Sqs_deleteMessageBatch
                      \<lparr>batch_QueueUrl = ''q'',
                       Entries = [\<lparr>Id = ''m1'', entry_ReceiptHandle = ''r1''\<rparr>,
                                  \<lparr>Id = ''m2'', entry_ReceiptHandle = ''r2''\<rparr>]\<rparr>])
          \<and> deleteMessageBatch_responses this p [Batch_data []]
            = (No_pending,
               Inr [Emit MESSAGE_PROCESSED_EVENT (Ack_payload (Arg_array 0)),
                    Sqs_receiveMessage
                  \<lparr>QueueUrl = ''q'', AttributeNames = [], MessageAttributeNames = [],
                    MaxNumberOfMessages = 1, WaitTimeSeconds = None,
                    VisibilityTimeout = None\<rparr>])))"
proof -
  define this where "this = \<lparr>queueUrl = ''q'', batchSize = 1, waitTimeSeconds = None,
              visibilityTimeout = None, attributeNames = [], messageAttributeNames = [],
              authenticationErrorTimeout = 10000, rcv_bufferSize = None,
              rcv_bufferTimeout = 10000, buffer = None, stopped = False,
              listeners = [''error'']\<rparr>"
  define m1 where "m1 = \<lparr>MessageId = ''m1'', ReceiptHandle = ''r1'', Body = ''b1''\<rparr>"
  define m2 where "m2 = \<lparr>MessageId = ''m2'', ReceiptHandle = ''r2'', Body = ''b2''\<rparr>"
  define h where "h = [ [m1, m2] ]"
  have h1: "heap_get h 0 = Some [m1, m2]" by (simp add: heap_get_def h_def)
  have h2: "1 < length [m1, m2]" by simp
  have good: "list_all batch_ok [Batch_data []]" by (simp add: batch_ok_def)
  have len: "length [Batch_data []] = (length [m1, m2] + 9) div 10" by simp
  have call: "deleteMessage this h (Arg_array 0)
      = Inr ([ [m1, m2], [] ], Await_batch 1 (Arg_array 0),
             [Sqs_deleteMessageBatch
                \<lparr>batch_QueueUrl = ''q'',
                 Entries = [\<lparr>Id = ''m1'', entry_ReceiptHandle = ''r1''\<rparr>,
                            \<lparr>Id = ''m2'', entry_ReceiptHandle = ''r2''\<rparr>]\<rparr>])"
    by (simp add: deleteMessage_def heap_get_def heap_alloc_def heap_set_def chunk_params_def
          h_def this_def m1_def m2_def)
  from ack_leaves_the_callers_array [OF h1 h2, of this "[Batch_data []]" this] good len
  have "deleteMessageBatch_responses this (Await_batch 1 (Arg_array 0)) [Batch_data []]
          = (No_pending,
             Inr [Emit MESSAGE_PROCESSED_EVENT (Ack_payload (Arg_array 0)),
                  Sqs_receiveMessage
                  \<lparr>QueueUrl = ''q'', AttributeNames = [], MessageAttributeNames = [],
                    MaxNumberOfMessages = 1, WaitTimeSeconds = None,
                    VisibilityTimeout = None\<rparr>])"
    unfolding call by (simp add: poll_def this_def)
  with h1 h2 good len call show ?thesis
    unfolding Let_def this_def m1_def m2_def h_def by blast
qed

text \<open>
  Claim C7. \<open>deleteMessage\<close> is given an error value. It makes no delete request, emits
  \<open>processing:error\<close> exactly once and nothing on the \<open>error\<close> channel, and then
  polls: a running consumer sends a receive request for its queue, a stopped one emits
  \<open>stopped\<close>. Nothing is left waiting for the queue client, and this holds with or
  without listeners.
\<close>

theorem ack_with_error_value:
  "(let effs = [Emit PROCESSING_ERROR_EVENT (Error_payload (App_error ProcessingError e)),
                (if stopped this then Emit STOPPED_EVENT No_payload
                 else Sqs_receiveMessage
                        \<lparr>QueueUrl = queueUrl this, AttributeNames = attributeNames this,
                         MessageAttributeNames = messageAttributeNames this,
                         MaxNumberOfMessages = batchSize this,
                         WaitTimeSeconds = waitTimeSeconds this,
                         VisibilityTimeout = visibilityTimeout this\<rparr>)]
    in deleteMessage this h (Arg_error e) = Inr (h, No_pending, effs)
     \<and> filter is_delete effs = []
     \<and> length (filter (emits PROCESSING_ERROR_EVENT) effs) = 1
     \<and> filter (emits ERROR_EVENT) effs = []
     \<and> length (filter is_receive effs) = (if stopped this then 0 else 1))"
  by (simp add: deleteMessage_def handleErrors_ProcessingError followed_by_def poll_explicit
        PROCESSING_ERROR_EVENT_def ERROR_EVENT_def STOPPED_EVENT_def)

theorem ack_with_error_value_witness:
  "(let this = \<lparr>queueUrl = ''q'', batchSize = 1, waitTimeSeconds = None,
              visibilityTimeout = None, attributeNames = [], messageAttributeNames = [],
              authenticationErrorTimeout = 10000, rcv_bufferSize = None,
              rcv_bufferTimeout = 10000, buffer = None, stopped = False,
              listeners = []\<rparr>
    in deleteMessage this [] (Arg_error ''Test Processing Error'')
       = Inr ([], No_pending,
              [Emit PROCESSING_ERROR_EVENT
                 (Error_payload (App_error ProcessingError ''Test Processing Error'')),
               Sqs_receiveMessage
                  \<lparr>QueueUrl = ''q'', AttributeNames = [], MessageAttributeNames = [],
                    MaxNumberOfMessages = 1, WaitTimeSeconds = None,
                    VisibilityTimeout = None\<rparr>]))"
proof -
  define this where "this = \<lparr>queueUrl = ''q'', batchSize = 1, waitTimeSeconds = None,
              visibilityTimeout = None, attributeNames = [], messageAttributeNames = [],
              authenticationErrorTimeout = 10000, rcv_bufferSize = None,
              rcv_bufferTimeout = 10000, buffer = None, stopped = False,
              listeners = []\<rparr>"
  have "\<not> stopped this" by (simp add: this_def)
  with ack_with_error_value [of "''Test Processing Error''" this "[]"]
  show ?thesis
    unfolding Let_def this_def by simp
qed

section \<open>The consumer: inputs on which the code leaves its documented behaviour\<close>

text \<open>
  Claim C1, evaluated on the code. A receive fails with a networking error, which is
  not an authentication failure, while the consumer is running. With a listener for
  \<open>error\<close> the handler emits \<open>error\<close> and returns: it makes no receive request and
  sets no timer, so nothing is left that would poll again. Without a listener \<open>emit\<close>
  throws and the handler does not even return. (The claim says that another poll is
  issued at once.)
\<close>

theorem generic_receive_error_ends_polling:
  "(let this = \<lparr>queueUrl = ''q'', batchSize = 1, waitTimeSeconds = None,
              visibilityTimeout = None, attributeNames = [], messageAttributeNames = [],
              authenticationErrorTimeout = 10000, rcv_bufferSize = None,
              rcv_bufferTimeout = 10000, buffer = None, stopped = False,
              listeners = [''error'']\<rparr>;
        err = \<lparr>code = Code_str ''NetworkingError'', err_message = ''socket hang up''\<rparr>
    in internalMessageReceiver this (Some err) None
       = Inr (this,
              [Emit ERROR_EVENT (Error_payload (App_error SQSError ''SQS Receive Error''))])
     \<and> internalMessageReceiver (this\<lparr>listeners := []\<rparr>) (Some err) None
       = Inl (Thrown (App_error SQSError ''SQS Receive Error'')))"
  by (simp add: internalMessageReceiver_def handleErrors_SQSError ERROR_EVENT_def)

text \<open>
  Claim C8, evaluated on the code. A receive fails with code 403 while the consumer is
  running. The handler emits \<open>error\<close> and sets a timer of 10000 ms, the default
  back-off, but the function it hands to the timer is the bare method \<open>_poll\<close>: when
  the timer fires, the call throws and no receive request is made. The bound function
  \<open>_pollBound\<close>, which the constructor prepares, would have polled. (The claim says
  that the scheduled poll runs as a poll of the consumer.)
\<close>

theorem authentication_retry_calls_unbound_poll:
  "(let this = \<lparr>queueUrl = ''q'', batchSize = 1, waitTimeSeconds = None,
              visibilityTimeout = None, attributeNames = [], messageAttributeNames = [],
              authenticationErrorTimeout = 10000, rcv_bufferSize = None,
              rcv_bufferTimeout = 10000, buffer = None, stopped = False,
              listeners = [''error'']\<rparr>
    in internalMessageReceiver this
         (Some \<lparr>code = Code_num 403, err_message = ''Forbidden''\<rparr>) None
       = Inr (this,
              [Emit ERROR_EVENT
                 (Error_payload
                    (App_error SQSAuthenticationError ''SQS authentication Error'')),
               SetTimeout Unbound_poll 10000])
     \<and> timer_fires this Unbound_poll
         = Inl (TypeError ''Cannot read property receiveMessage of undefined'')
     \<and> timer_fires this Bound_poll
         = Inr [Sqs_receiveMessage
                  \<lparr>QueueUrl = ''q'', AttributeNames = [], MessageAttributeNames = [],
                    MaxNumberOfMessages = 1, WaitTimeSeconds = None,
                    VisibilityTimeout = None\<rparr>])"
  by (simp add: internalMessageReceiver_def handleErrors_def emit_def followed_by_def
        timer_fires_def poll_def ERROR_EVENT_def)

text \<open>
  Claim C9, evaluated on the code. A receive fails with code 403 while the consumer is
  running, so the timer of the back-off is set with the bare method \<open>_poll\<close>; then
  \<open>stop\<close> is called, which sets the flag and does nothing else. The next poll decision
  is the one the timer makes: the call throws, so it makes no receive request, but it
  emits no \<open>stopped\<close> either. A poll of the stopped consumer itself would have emitted
  \<open>stopped\<close>. (The claim says that the very next poll decision after \<open>stop\<close> emits
  \<open>stopped\<close>.)
\<close>

theorem stop_during_authentication_backoff:
  "(let this = \<lparr>queueUrl = ''q'', batchSize = 1, waitTimeSeconds = None,
              visibilityTimeout = None, attributeNames = [], messageAttributeNames = [],
              authenticationErrorTimeout = 10000, rcv_bufferSize = None,
              rcv_bufferTimeout = 10000, buffer = None, stopped = False,
              listeners = [''error'']\<rparr>;
        halted = this\<lparr>stopped := True\<rparr>
    in internalMessageReceiver this
         (Some \<lparr>code = Code_num 403, err_message = ''Forbidden''\<rparr>) None
       = Inr (this,
              [Emit ERROR_EVENT
                 (Error_payload
                    (App_error SQSAuthenticationError ''SQS authentication Error'')),
               SetTimeout Unbound_poll 10000])
     \<and> stop this = (halted, [])
     \<and> timer_fires halted Unbound_poll
         = Inl (TypeError ''Cannot read property receiveMessage of undefined'')
     \<and> poll halted = [Emit STOPPED_EVENT No_payload]
     \<and> timer_fires halted Bound_poll = Inr [Emit STOPPED_EVENT No_payload])"
  by (simp add: internalMessageReceiver_def handleErrors_def emit_def followed_by_def
        timer_fires_def poll_def stop_def ERROR_EVENT_def)

text \<open>
  Claim C2, evaluated on the code. A consumer with a buffer of capacity 20 is running
  and a receive returns two messages. The handler emits \<open>message:received\<close> and adds
  the messages to the buffer, which starts its timer; no receive request follows. (The
  claim says that another poll is issued at once.)
\<close>

theorem buffered_receive_does_not_poll:
  "(let m1 = \<lparr>MessageId = ''m1'', ReceiptHandle = ''r1'', Body = ''b1''\<rparr>;
        m2 = \<lparr>MessageId = ''m2'', ReceiptHandle = ''r2'', Body = ''b2''\<rparr>;
        this = \<lparr>queueUrl = ''q'', batchSize = 10, waitTimeSeconds = None,
              visibilityTimeout = None, attributeNames = [], messageAttributeNames = [],
              authenticationErrorTimeout = 10000, rcv_bufferSize = Some 20,
              rcv_bufferTimeout = 10000,
              buffer = Some \<lparr>bufferSize = 20, bufferTimeout = 10000, items = [],
                              timerId = None, flushed = []\<rparr>,
              stopped = False, listeners = [''error'']\<rparr>
    in internalMessageReceiver this None (Some \<lparr>Messages = Some [m1, m2]\<rparr>)
       = Inr (this\<lparr>buffer := Some \<lparr>bufferSize = 20, bufferTimeout = 10000,
                                     items = [m1, m2], timerId = Some 10000,
                                     flushed = []\<rparr>\<rparr>,
              [Emit MESSAGE_RECEIVED_EVENT (Messages_payload [m1, m2])]))"
  by (simp add: internalMessageReceiver_def internalMessageProcessor_def truthy_num_def
        add.simps Let_def startTimer_def onFlush_def)

text \<open>
  Claim C5, evaluated on the code. The options give \<open>queueUrl\<close>, \<open>messageReceiver\<close>
  and \<open>bufferSize = 1\<close>, and leave \<open>batchSize\<close> out. Construction succeeds, with the
  batch size set to its default 1 and a buffer of capacity 1: the capacity was compared
  with \<open>undefined\<close>. (The claim says that construction throws, since 1 is not greater
  than the effective batch size 1.)
\<close>

theorem bufferSize_is_not_checked_against_default_batchSize:
  "Receiver_new
     (Some \<lparr>opt_queueUrl = Some ''q'', opt_messageReceiver = True, opt_batchSize = None,
            opt_waitTimeSeconds = None, opt_visibilityTimeout = None,
            opt_attributeNames = None, opt_messageAttributeNames = None,
            opt_authenticationErrorTimeout = None, opt_bufferSize = Some 1,
            opt_bufferTimeout = None\<rparr>)
   = Inr \<lparr>queueUrl = ''q'', batchSize = 1, waitTimeSeconds = None, visibilityTimeout = None,
          attributeNames = [], messageAttributeNames = [], authenticationErrorTimeout = 10000,
          rcv_bufferSize = Some 1, rcv_bufferTimeout = 10000,
          buffer = Some \<lparr>bufferSize = 1, bufferTimeout = 10000, items = [], timerId = None,
                          flushed = []\<rparr>,
          stopped = True, listeners = []\<rparr>"
  by (simp add: Receiver_new_def Receiver_validate_def truthy_str_def truthy_num_def
        js_lt_def js_gt_def js_le_def or_num_def or_list_def Memory_new_def Memory_validate_def)

end
